theory Spec2Isabelle
  imports Main "HOL-Library.Char_ord" "HOL-Library.List_Lexorder" "HOL-Library.Sublist"
begin

section \<open>Python values decoded from JSON\<close>

text \<open>
  Every payload the integration handles is the result of \<^verbatim>\<open>json.loads\<close> or
  \<^verbatim>\<open>resp.json()\<close>: \<^verbatim>\<open>None\<close>, a bool, an int of any size, a float, a str,
  a list or a dict with str keys. Strings are byte strings (UTF-8).

  A Python float is carried by what the program can observe of it: its text
  (\<^verbatim>\<open>str(x)\<close>) and the integer it is equal to, when there is one (\<^verbatim>\<open>2.0 == 2\<close>). Its
  arithmetic is not modelled; NaN, which Python tells apart by object identity when it
  is used as a dictionary key, is outside the model.
\<close>

datatype pyfloat = PyFloat (float_repr: string) (float_int: "int option")

datatype json =
    JNull
  | JBool bool
  | JInt int
  | JFloat pyfloat
  | JStr string
  | JList "json list"
  | JDict "(string \<times> json) list"

datatype py_error = AttributeError | TypeError | ValueError | OverflowError

text \<open>Truth value testing, \<^verbatim>\<open>bool(v)\<close>.\<close>

fun truthy :: "json \<Rightarrow> bool" where
  "truthy JNull = False"
| "truthy (JBool b) = b"
| "truthy (JInt n) = (n \<noteq> 0)"
| "truthy (JFloat f) = (float_int f \<noteq> Some 0)"
| "truthy (JStr s) = (s \<noteq> [])"
| "truthy (JList xs) = (xs \<noteq> [])"
| "truthy (JDict ps) = (ps \<noteq> [])"

text \<open>
  \<^verbatim>\<open>v.get(k, default)\<close>: only a dict has the method; on any other decoded value the
  attribute lookup raises AttributeError.
\<close>

fun py_get :: "json \<Rightarrow> string \<Rightarrow> json \<Rightarrow> py_error + json" where
  "py_get (JDict ps) k dflt = Inr (case map_of ps k of Some v \<Rightarrow> v | None \<Rightarrow> dflt)"
| "py_get _ k dflt = Inl AttributeError"

subsection \<open>Dictionary keys\<close>

text \<open>
  The hashable decoded values. Lists and dicts are unhashable: using one as a key
  raises TypeError.
\<close>

datatype pykey = KNone | KBool bool | KInt int | KFloat pyfloat | KStr string

fun hash_key :: "json \<Rightarrow> pykey option" where
  "hash_key JNull = Some KNone"
| "hash_key (JBool b) = Some (KBool b)"
| "hash_key (JInt n) = Some (KInt n)"
| "hash_key (JFloat f) = Some (KFloat f)"
| "hash_key (JStr s) = Some (KStr s)"
| "hash_key (JList xs) = None"
| "hash_key (JDict ps) = None"

text \<open>
  Python compares numeric keys by value: \<^verbatim>\<open>True == 1 == 1.0\<close>. Two keys are the same
  dictionary key when their normal forms coincide.
\<close>

fun key_norm :: "pykey \<Rightarrow> pykey" where
  "key_norm (KBool b) = KInt (if b then 1 else 0)"
| "key_norm (KFloat f) = (case float_int f of Some n \<Rightarrow> KInt n | None \<Rightarrow> KFloat f)"
| "key_norm k = k"

definition key_eq :: "pykey \<Rightarrow> pykey \<Rightarrow> bool" where
  "key_eq a b = (key_norm a = key_norm b)"

text \<open>
  A dict keyed by such values, in insertion order. \<^verbatim>\<open>d[k] = v\<close> replaces the value of an
  equal key where it stands (the key object first inserted is kept) and appends a new
  key at the end.
\<close>

type_synonym 'v pydict = "(pykey \<times> 'v) list"

fun dict_lookup :: "pykey \<Rightarrow> 'v pydict \<Rightarrow> 'v option" where
  "dict_lookup k [] = None"
| "dict_lookup k ((k', v') # ps) = (if key_eq k' k then Some v' else dict_lookup k ps)"

fun dict_store :: "pykey \<Rightarrow> 'v \<Rightarrow> 'v pydict \<Rightarrow> 'v pydict" where
  "dict_store k v [] = [(k, v)]"
| "dict_store k v ((k', v') # ps) =
     (if key_eq k' k then (k', v) # ps else (k', v') # dict_store k v ps)"

text \<open>Membership in a set of keys, \<^verbatim>\<open>k in names\<close>.\<close>

definition key_in :: "pykey \<Rightarrow> pykey list \<Rightarrow> bool" where
  "key_in k ks = list_ex (key_eq k) ks"

section \<open>The snapshot store: \<^verbatim>\<open>_update_state\<close>\<close>

text \<open>
  \<^verbatim>\<open>
  for device in devices_list:
      name = device.get("device_name")
      if not name:
          continue
      devices_dict[name] = device
      updated_names.append(name)
  \<close>
  The loop mutates \<^verbatim>\<open>devices_dict\<close> in place, so an exception raised at one entry
  leaves the entries before it applied. The model returns the mapping and the names
  reached so far together with the exception, if any.
\<close>

fun update_loop ::
  "json pydict \<Rightarrow> json list \<Rightarrow> pykey list \<Rightarrow> json pydict \<times> pykey list \<times> py_error option" where
  "update_loop devices_dict [] updated_names = (devices_dict, updated_names, None)"
| "update_loop devices_dict (device # rest) updated_names =
     (case py_get device ''device_name'' JNull of
        Inl e \<Rightarrow> (devices_dict, updated_names, Some e)
      | Inr name \<Rightarrow>
          if \<not> truthy name then update_loop devices_dict rest updated_names
          else (case hash_key name of
                  None \<Rightarrow> (devices_dict, updated_names, Some TypeError)
                | Some k \<Rightarrow>
                    update_loop (dict_store k device devices_dict) rest (updated_names @ [k])))"

record update_outcome =
  new_devices :: "json pydict"
  updated :: "pykey list"
  signalled :: bool
  raised :: "py_error option"

text \<open>
  The payload is given by the result of \<^verbatim>\<open>json.loads\<close>: \<open>None\<close> when it raises
  JSONDecodeError (the message is dropped and no signal is sent). A decoded value that
  is not a list counts as the empty list
  (\<^verbatim>\<open>data if isinstance(data, list) else []\<close>). The dispatcher signal is sent after the loop,
  so it is not sent when the loop raises.
\<close>

fun as_list :: "json \<Rightarrow> json list" where
  "as_list (JList xs) = xs"
| "as_list _ = []"

definition update_state :: "json pydict \<Rightarrow> json option \<Rightarrow> update_outcome" where
  "update_state devices payload =
     (case payload of
        None \<Rightarrow> \<lparr>new_devices = devices, updated = [], signalled = False, raised = None\<rparr>
      | Some data \<Rightarrow>
          let devices_list = as_list data
          in case update_loop devices devices_list [] of
               (devices', names, err) \<Rightarrow>
                 \<lparr>new_devices = devices', updated = names,
                  signalled = (err = None), raised = err\<rparr>)"

subsection \<open>Auxiliary functions for the properties of the store\<close>

text \<open>The entries the loop stores before it ends or raises, as key and device.\<close>

fun stored_entries :: "json list \<Rightarrow> (pykey \<times> json) list" where
  "stored_entries [] = []"
| "stored_entries (device # rest) =
     (case py_get device ''device_name'' JNull of
        Inl e \<Rightarrow> []
      | Inr name \<Rightarrow>
          if \<not> truthy name then stored_entries rest
          else (case hash_key name of
                  None \<Rightarrow> []
                | Some k \<Rightarrow> (k, device) # stored_entries rest))"

fun stores :: "'v pydict \<Rightarrow> (pykey \<times> 'v) list \<Rightarrow> 'v pydict" where
  "stores d [] = d"
| "stores d ((k, v) # ps) = stores (dict_store k v d) ps"

fun newval :: "pykey \<Rightarrow> 'v \<Rightarrow> (pykey \<times> 'v) list \<Rightarrow> 'v" where
  "newval k v [] = v"
| "newval k v ((k', v') # ps) = newval k (if key_eq k k' then v' else v) ps"

definition others :: "pykey \<Rightarrow> (pykey \<times> 'v) list \<Rightarrow> (pykey \<times> 'v) list" where
  "others k ps = filter (\<lambda>p. \<not> key_eq k (fst p)) ps"

text \<open>
  The key under which the loop stores an entry: none for an entry that is not an
  object, that has no truthy \<^verbatim>\<open>device_name\<close>, or whose name is unhashable.
\<close>

definition entry_key :: "json \<Rightarrow> pykey option" where
  "entry_key device =
     (case py_get device ''device_name'' JNull of
        Inl e \<Rightarrow> None
      | Inr name \<Rightarrow> if truthy name then hash_key name else None)"

fun last_named :: "pykey \<Rightarrow> (pykey \<times> 'v) list \<Rightarrow> 'v option" where
  "last_named k [] = None"
| "last_named k ((k', v) # ps) =
     (case last_named k ps of
        Some w \<Rightarrow> Some w
      | None \<Rightarrow> if key_eq k' k then Some v else None)"

text \<open>
  An entry lacks a device name when it is an object whose \<^verbatim>\<open>device_name\<close> is absent or
  falsy (\<^verbatim>\<open>if not name: continue\<close>). An entry is well formed for the loop when it is an
  object whose name, if truthy, is hashable.
\<close>

definition lacks_name :: "json \<Rightarrow> bool" where
  "lacks_name device =
     (case py_get device ''device_name'' JNull of
        Inl e \<Rightarrow> False
      | Inr name \<Rightarrow> \<not> truthy name)"

definition well_formed_entry :: "json \<Rightarrow> bool" where
  "well_formed_entry device =
     (case py_get device ''device_name'' JNull of
        Inl e \<Rightarrow> False
      | Inr name \<Rightarrow> truthy name \<longrightarrow> hash_key name \<noteq> None)"

section \<open>Status derivation: \<^verbatim>\<open>get_ups_status\<close>\<close>

text \<open>
  \<^verbatim>\<open>str(v)\<close> of a decoded value. The text of a list or dict is Python's \<^verbatim>\<open>repr\<close> of its
  elements, which is not modelled: it is taken from the parameter \<open>container_str\<close>.
\<close>

definition digit_char :: "nat \<Rightarrow> char" where
  "digit_char d = ''0123456789'' ! d"

fun str_nat :: "nat \<Rightarrow> string" where
  "str_nat n = (if n < 10 then [digit_char n] else str_nat (n div 10) @ [digit_char (n mod 10)])"

declare str_nat.simps [simp del]

definition str_int :: "int \<Rightarrow> string" where
  "str_int n = (if n < 0 then CHR ''-'' # str_nat (nat (- n)) else str_nat (nat n))"

fun py_str :: "(json \<Rightarrow> string) \<Rightarrow> json \<Rightarrow> string" where
  "py_str container_str JNull = ''None''"
| "py_str container_str (JBool b) = (if b then ''True'' else ''False'')"
| "py_str container_str (JInt n) = str_int n"
| "py_str container_str (JFloat f) = float_repr f"
| "py_str container_str (JStr s) = s"
| "py_str container_str (JList xs) = container_str (JList xs)"
| "py_str container_str (JDict ps) = container_str (JDict ps)"

text \<open>
  \<^verbatim>\<open>s.lower()\<close> on the ASCII letters. No character outside ASCII lower-cases to a letter
  of the tokens tested below, so the tests agree with Python's on every string.
\<close>

definition lower_char :: "char \<Rightarrow> char" where
  "lower_char c =
     (case map_of (zip ''ABCDEFGHIJKLMNOPQRSTUVWXYZ'' ''abcdefghijklmnopqrstuvwxyz'') c of
        Some l \<Rightarrow> l
      | None \<Rightarrow> c)"

definition lower :: "string \<Rightarrow> string" where
  "lower s = map lower_char s"

text \<open>
  \<^verbatim>\<open>
  if not device:
      return "offline"
  attrs = device.get("attributes") or {}
  status_raw = str(attrs.get("status", "")).lower()
  xon = str(attrs.get("xon_battery", "")).lower()
  on_battery = any(
      token in status_raw for token in ("onbatt", "on battery", "ob", "on_battery")
  ) or xon in {"1", "true", "yes"}
  return "On Battery" if on_battery else "Online"
  \<close>
  The device is a dict or \<^verbatim>\<open>None\<close> (\<open>JNull\<close>). \<^verbatim>\<open>token in status_raw\<close> is the substring
  test, \<^const>\<open>sublist\<close>.
\<close>

definition get_ups_status :: "(json \<Rightarrow> string) \<Rightarrow> json \<Rightarrow> py_error + string" where
  "get_ups_status container_str device =
     (if \<not> truthy device then Inr ''offline''
      else case py_get device ''attributes'' JNull of
        Inl e \<Rightarrow> Inl e
      | Inr a \<Rightarrow>
          let attrs = (if truthy a then a else JDict []) in
          case py_get attrs ''status'' (JStr '''') of
            Inl e \<Rightarrow> Inl e
          | Inr st \<Rightarrow>
              let status_raw = lower (py_str container_str st) in
              case py_get attrs ''xon_battery'' (JStr '''') of
                Inl e \<Rightarrow> Inl e
              | Inr x \<Rightarrow>
                  let xon = lower (py_str container_str x);
                      on_battery =
                        (list_ex (\<lambda>token. sublist token status_raw)
                           [''onbatt'', ''on battery'', ''ob'', ''on_battery'']
                         \<or> xon \<in> set [''1'', ''true'', ''yes''])
                  in Inr (if on_battery then ''On Battery'' else ''Online''))"

text \<open>The function used for \<open>container_str\<close> where no list or dict is turned into text.\<close>

definition no_container_str :: "json \<Rightarrow> string" where
  "no_container_str v = ''''"

text \<open>The lower-cased text of an attribute, the empty string when it is missing.\<close>

definition attr_text :: "(json \<Rightarrow> string) \<Rightarrow> (string \<times> json) list \<Rightarrow> string \<Rightarrow> string" where
  "attr_text container_str attrs k =
     lower (py_str container_str (case map_of attrs k of Some v \<Rightarrow> v | None \<Rightarrow> JStr ''''))"

section \<open>Attribute values: \<^verbatim>\<open>normalize_attribute_value\<close>\<close>

text \<open>
  Float arithmetic is not modelled. The three operations the function needs are
  parameters: the float nearest to an int in range, the float a string denotes
  (\<open>None\<close> when \<^verbatim>\<open>float(s)\<close> raises ValueError), and \<^verbatim>\<open>round(x / 60, 2)\<close>.
\<close>

record float_conv =
  float_of_int :: "int \<Rightarrow> pyfloat"
  float_of_str :: "string \<Rightarrow> pyfloat option"
  minutes :: "pyfloat \<Rightarrow> pyfloat"

text \<open>
  \<^verbatim>\<open>float(v)\<close>. A bool is an int. An int converts when it rounds to a finite double,
  that is when its magnitude is below \<open>2^1024 - 2^970\<close>; beyond that Python raises
  OverflowError ("int too large to convert to float"). \<^verbatim>\<open>None\<close>, a list and a dict
  raise TypeError.
\<close>

fun py_float :: "float_conv \<Rightarrow> json \<Rightarrow> py_error + pyfloat" where
  "py_float conv JNull = Inl TypeError"
| "py_float conv (JBool b) = Inr (float_of_int conv (if b then 1 else 0))"
| "py_float conv (JInt n) =
     (if \<bar>n\<bar> \<ge> 2 ^ 1024 - 2 ^ 970 then Inl OverflowError else Inr (float_of_int conv n))"
| "py_float conv (JFloat f) = Inr f"
| "py_float conv (JStr s) =
     (case float_of_str conv s of None \<Rightarrow> Inl ValueError | Some f \<Rightarrow> Inr f)"
| "py_float conv (JList xs) = Inl TypeError"
| "py_float conv (JDict ps) = Inl TypeError"

text \<open>
  \<^verbatim>\<open>
  try:
      return <converted>
  except (ValueError, TypeError):
      return value
  \<close>
  Any other exception of the conversion leaves the function.
\<close>

definition try_convert :: "py_error + pyfloat \<Rightarrow> (pyfloat \<Rightarrow> pyfloat) \<Rightarrow> json \<Rightarrow> py_error + json" where
  "try_convert converted f v =
     (case converted of
        Inr x \<Rightarrow> Inr (JFloat (f x))
      | Inl e \<Rightarrow> if e = ValueError \<or> e = TypeError then Inr v else Inl e)"

definition numeric_attrs :: "string list" where
  "numeric_attrs =
     [''battery_charge'', ''load_percentage'', ''input_voltage'', ''output_voltage'',
      ''battery_voltage'', ''internal_temperature'', ''real_power'', ''input_frequency'',
      ''output_frequency'', ''battery_current'']"

definition normalize_attribute_value :: "float_conv \<Rightarrow> string \<Rightarrow> json \<Rightarrow> py_error + json" where
  "normalize_attribute_value conv attribute v =
     (if v = JNull then Inr JNull
      else if attribute = ''time_left'' then try_convert (py_float conv v) (minutes conv) v
      else if attribute = ''time_on_battery'' then try_convert (py_float conv v) (\<lambda>x. x) v
      else if attribute \<in> set numeric_attrs then try_convert (py_float conv v) (\<lambda>x. x) v
      else Inr v)"

section \<open>Endpoint addresses: \<^verbatim>\<open>build_http_url\<close>\<close>

text \<open>
  \<^verbatim>\<open>urlparse\<close> and \<^verbatim>\<open>urlunparse\<close> belong to Python's \<^verbatim>\<open>urllib.parse\<close>; they are
  parameters of the model. \<^verbatim>\<open>urlparse\<close> returns the six components of an address or
  raises ValueError (for instance on an unbalanced bracket in the host);
  \<^verbatim>\<open>urlunparse\<close> assembles six components into an address.
\<close>

record url_parts =
  scheme :: string
  netloc :: string
  path :: string
  params :: string
  query :: string
  fragment :: string

text \<open>
  \<^verbatim>\<open>
  if not server_url:
      return None
  parsed = urlparse(server_url)
  scheme = parsed.scheme
  if scheme in ("ws", "wss"):
      scheme = "http" if scheme == "ws" else "https"
  elif scheme not in ("http", "https"):
      return None
  return urlunparse((scheme, parsed.netloc, path, "", "", ""))
  \<close>
\<close>

definition build_http_url ::
  "(string \<Rightarrow> py_error + url_parts) \<Rightarrow> (url_parts \<Rightarrow> string) \<Rightarrow> string \<Rightarrow> string
     \<Rightarrow> py_error + string option" where
  "build_http_url urlparse urlunparse server_url new_path =
     (if server_url = [] then Inr None
      else case urlparse server_url of
        Inl e \<Rightarrow> Inl e
      | Inr parsed \<Rightarrow>
          if scheme parsed \<in> set [''ws'', ''wss''] then
            Inr (Some (urlunparse
              \<lparr>scheme = (if scheme parsed = ''ws'' then ''http'' else ''https''),
               netloc = netloc parsed, path = new_path,
               params = [], query = [], fragment = []\<rparr>))
          else if scheme parsed \<notin> set [''http'', ''https''] then Inr None
          else
            Inr (Some (urlunparse
              \<lparr>scheme = scheme parsed, netloc = netloc parsed, path = new_path,
               params = [], query = [], fragment = []\<rparr>)))"

text \<open>
  The scheme conversion in the words of the specification: \<open>ws\<close> to \<open>http\<close>, \<open>wss\<close> to
  \<open>https\<close>, a request/response scheme unchanged, any other scheme rejected.
\<close>

definition spec_http_scheme :: "string \<Rightarrow> string option" where
  "spec_http_scheme s =
     (if s = ''ws'' then Some ''http''
      else if s = ''wss'' then Some ''https''
      else if s = ''http'' \<or> s = ''https'' then Some s
      else None)"

text \<open>
  For the closed examples: the default server address of \<^verbatim>\<open>const.py\<close> and the same
  address with the scheme \<open>http\<close>, their components as \<^verbatim>\<open>urlparse\<close> gives them, and
  \<^verbatim>\<open>urlunparse\<close> for a scheme, a host and a path (a path that does not start with a
  slash gets one), the other three components being empty.
\<close>

definition DEFAULT_SERVER_URL :: string where
  "DEFAULT_SERVER_URL = ''ws://homeassistant.local:8080/ws''"

definition urlparse_known :: "string \<Rightarrow> py_error + url_parts" where
  "urlparse_known url =
     (if url = ''ws://homeassistant.local:8080/ws''
      then Inr \<lparr>scheme = ''ws'', netloc = ''homeassistant.local:8080'', path = ''/ws'',
                params = [], query = [], fragment = []\<rparr>
      else if url = ''http://homeassistant.local:8080/ws''
      then Inr \<lparr>scheme = ''http'', netloc = ''homeassistant.local:8080'', path = ''/ws'',
                params = [], query = [], fragment = []\<rparr>
      else Inl ValueError)"

definition urlunparse_host :: "url_parts \<Rightarrow> string" where
  "urlunparse_host p =
     scheme p @ ''://'' @ netloc p
       @ (if path p \<noteq> [] \<and> hd (path p) \<noteq> CHR ''/'' then CHR ''/'' # path p else path p)"

section \<open>The initial seed: \<^verbatim>\<open>_fetch_initial_status\<close> and the retry loop\<close>

text \<open>
  One call of \<^verbatim>\<open>_fetch_initial_status\<close>. What the network does is its input: the request
  raises (or times out), or a response arrives with a status code and a body whose
  decoding succeeds or raises. Every failure, and every status other than 200, gives
  the empty list. No request is made when the address has no HTTP form.
\<close>

datatype http_get = GetRaised | GetResponse int "json option"

definition fetch_initial_status :: "string option \<Rightarrow> http_get \<Rightarrow> json" where
  "fetch_initial_status status_url reply =
     (case status_url of
        None \<Rightarrow> JList []
      | Some url \<Rightarrow>
          if url = [] then JList []
          else (case reply of
                  GetRaised \<Rightarrow> JList []
                | GetResponse status body \<Rightarrow>
                    if status = 200
                    then (case body of Some data \<Rightarrow> data | None \<Rightarrow> JList [])
                    else JList []))"
















section \<open>The command dispatcher: \<^verbatim>\<open>UPSCommandButton.async_press\<close>\<close>

text \<open>
  A raised Python exception, by its class and its text (\<^verbatim>\<open>str(err)\<close>). The text of an
  exception raised without arguments is empty; that is how \<^verbatim>\<open>async_timeout\<close> raises
  \<^verbatim>\<open>asyncio.TimeoutError\<close> when the time limit of the request expires.
\<close>

datatype pyexn = PyExn (exn_class: string) (exn_text: string)

definition asyncio_TimeoutError :: pyexn where
  "asyncio_TimeoutError = PyExn ''TimeoutError'' ''''"

text \<open>
  What the network does with the request is the input of the model: the post raises
  (connection error, timeout); or a response with a status arrives and decoding its
  body raises (malformed body, timeout); or status and decoded body arrive.
\<close>

datatype http_post =
    PostRaised pyexn
  | BodyRaised int pyexn
  | PostResponse int json

fun py_type_name :: "json \<Rightarrow> string" where
  "py_type_name JNull = ''NoneType''"
| "py_type_name (JBool b) = ''bool''"
| "py_type_name (JInt n) = ''int''"
| "py_type_name (JFloat f) = ''float''"
| "py_type_name (JStr s) = ''str''"
| "py_type_name (JList xs) = ''list''"
| "py_type_name (JDict ps) = ''dict''"

text \<open>The AttributeError of \<^verbatim>\<open>result.get\<close> on a body that is not an object.\<close>

definition no_get_error :: "json \<Rightarrow> pyexn" where
  "no_get_error v =
     PyExn ''AttributeError''
       ([CHR 0x27] @ py_type_name v @ [CHR 0x27] @ '' object has no attribute ''
        @ [CHR 0x27] @ ''get'' @ [CHR 0x27])"

fun key_json :: "pykey \<Rightarrow> json" where
  "key_json KNone = JNull"
| "key_json (KBool b) = JBool b"
| "key_json (KInt n) = JInt n"
| "key_json (KFloat f) = JFloat f"
| "key_json (KStr s) = JStr s"

text \<open>The HomeAssistantError raised, by its cause rather than by its formatted message.\<close>

datatype ha_error =
    BaseUrlUnavailable
  | CommandFailedStatus int string json
  | CommandFailed string pyexn

record press_result =
  last_result :: "json option"
  posted :: "(string \<times> json) option"
  press_raised :: "ha_error option"

definition failure_result :: "json \<Rightarrow> json" where
  "failure_result message = JDict [(''success'', JBool False), (''error'', message)]"

text \<open>
  \<^verbatim>\<open>
  if not base_http:
      raise HomeAssistantError("UPS server base URL is unavailable")
  url = f"{base_http}/api/command"
  payload = {"device": self._device_name, "command": self._description.command}
  try:
      async with async_timeout.timeout(HTTP_TIMEOUT):
          resp = await session.post(url, json=payload)
          result = await resp.json()
      if resp.status >= 400:
          message = result.get("error", "unknown error")
          self._last_result = {"success": False, "error": message}
          raise HomeAssistantError(...)
      self._last_result = result
      _LOGGER.info(..., result.get("success", False))
  except HomeAssistantError:
      raise
  except Exception as err:
      self._last_result = {"success": False, "error": str(err)}
      raise HomeAssistantError(...) from err
  \<close>
  The button holds its last result, its display name, the device name and the command
  of its description.
\<close>

definition on_exception :: "string \<Rightarrow> (string \<times> json) \<Rightarrow> pyexn \<Rightarrow> press_result" where
  "on_exception name request err =
     \<lparr>last_result = Some (failure_result (JStr (exn_text err))),
      posted = Some request,
      press_raised = Some (CommandFailed name err)\<rparr>"

definition async_press ::
  "json option \<Rightarrow> string option \<Rightarrow> string \<Rightarrow> pykey \<Rightarrow> string \<Rightarrow> http_post \<Rightarrow> press_result" where
  "async_press previous base_http name device_name command exchange =
     (case base_http of
        None \<Rightarrow> \<lparr>last_result = previous, posted = None, press_raised = Some BaseUrlUnavailable\<rparr>
      | Some base \<Rightarrow>
          if base = [] then
            \<lparr>last_result = previous, posted = None, press_raised = Some BaseUrlUnavailable\<rparr>
          else
            let url = base @ ''/api/command'';
                payload = JDict [(''device'', key_json device_name), (''command'', JStr command)]
            in case exchange of
                 PostRaised err \<Rightarrow> on_exception name (url, payload) err
               | BodyRaised status err \<Rightarrow> on_exception name (url, payload) err
               | PostResponse status result \<Rightarrow>
                   if status \<ge> 400 then
                     (case py_get result ''error'' (JStr ''unknown error'') of
                        Inl e \<Rightarrow> on_exception name (url, payload) (no_get_error result)
                      | Inr message \<Rightarrow>
                          \<lparr>last_result = Some (failure_result message),
                           posted = Some (url, payload),
                           press_raised = Some (CommandFailedStatus status name message)\<rparr>)
                   else
                     (case py_get result ''success'' (JBool False) of
                        Inl e \<Rightarrow> on_exception name (url, payload) (no_get_error result)
                      | Inr logged \<Rightarrow>
                          \<lparr>last_result = Some result, posted = Some (url, payload),
                           press_raised = None\<rparr>))"

section \<open>Discovery: the two \<^verbatim>\<open>_maybe_add_entities\<close>\<close>

text \<open>A device name inside an f-string, \<^verbatim>\<open>f"{device_name}"\<close>.\<close>

fun py_format :: "pykey \<Rightarrow> string" where
  "py_format KNone = ''None''"
| "py_format (KBool b) = (if b then ''True'' else ''False'')"
| "py_format (KInt n) = str_int n"
| "py_format (KFloat f) = float_repr f"
| "py_format (KStr s) = s"

subsection \<open>Sensors\<close>

text \<open>The entities the sensor platform creates, by the arguments of their constructors.\<close>

datatype sensor_entity = UPSStatusSensor pykey | UPSAttributeSensor pykey string

text \<open>
  \<^verbatim>\<open>
  for attr_key in sorted(attrs.keys()):
      entity_key = f"{device_name}-{attr_key}"
      if entity_key in added:
          continue
      if attr_key == "status":
          continue  # Already handled by status sensor
      added.add(entity_key)
      new_entities.append(UPSAttributeSensor(..., device_name, attr_key, ...))
  \<close>
\<close>

fun sensor_attr_loop ::
  "pykey \<Rightarrow> string list \<Rightarrow> string set \<Rightarrow> sensor_entity list \<Rightarrow> string set \<times> sensor_entity list" where
  "sensor_attr_loop device_name [] added new_entities = (added, new_entities)"
| "sensor_attr_loop device_name (attr_key # rest) added new_entities =
     (let entity_key = py_format device_name @ ''-'' @ attr_key in
      if entity_key \<in> added then sensor_attr_loop device_name rest added new_entities
      else if attr_key = ''status'' then sensor_attr_loop device_name rest added new_entities
      else sensor_attr_loop device_name rest (insert entity_key added)
             (new_entities @ [UPSAttributeSensor device_name attr_key]))"

text \<open>
  \<^verbatim>\<open>sorted(attrs.keys())\<close>: the distinct keys of the dict in the order of their code points,
  which is the byte order of their UTF-8 form. \<^verbatim>\<open>keys\<close> exists on a dict only.
\<close>

fun sorted_keys :: "json \<Rightarrow> py_error + string list" where
  "sorted_keys (JDict ps) = Inr (sort (remdups (map fst ps)))"
| "sorted_keys _ = Inl AttributeError"

text \<open>
  \<^verbatim>\<open>
  for device_name, device in devices.items():
      # Filter to configured devices if any are configured
      if configured_names and device_name not in configured_names:
          continue
      # Status sensor
      status_key = f"{device_name}-status"
      if status_key not in added:
          added.add(status_key)
          new_entities.append(UPSStatusSensor(..., device_name, ...))
      # Attribute sensors
      attrs = device.get("attributes") or {}
      for attr_key in sorted(attrs.keys()):
          ...
  \<close>
  The two blocks of the loop body are two functions. The set \<^verbatim>\<open>added\<close> is mutated as
  the loop goes, so it keeps what was inserted before an exception.
\<close>

definition add_status_sensor ::
  "pykey \<Rightarrow> string set \<Rightarrow> sensor_entity list \<Rightarrow> string set \<times> sensor_entity list" where
  "add_status_sensor device_name added new_entities =
     (let status_key = py_format device_name @ ''-status'' in
      if status_key \<notin> added
      then (insert status_key added, new_entities @ [UPSStatusSensor device_name])
      else (added, new_entities))"

definition add_attribute_sensors ::
  "pykey \<Rightarrow> json \<Rightarrow> string set \<Rightarrow> sensor_entity list
     \<Rightarrow> string set \<times> sensor_entity list \<times> py_error option" where
  "add_attribute_sensors device_name device added new_entities =
     (case py_get device ''attributes'' JNull of
        Inl e \<Rightarrow> (added, new_entities, Some e)
      | Inr a \<Rightarrow>
          (case sorted_keys (if truthy a then a else JDict []) of
             Inl e \<Rightarrow> (added, new_entities, Some e)
           | Inr attr_keys \<Rightarrow>
               (case sensor_attr_loop device_name attr_keys added new_entities of
                  (added', new') \<Rightarrow> (added', new', None))))"

fun sensor_device_loop ::
  "pykey list \<Rightarrow> json pydict \<Rightarrow> string set \<Rightarrow> sensor_entity list
     \<Rightarrow> string set \<times> sensor_entity list \<times> py_error option" where
  "sensor_device_loop configured_names [] added new_entities = (added, new_entities, None)"
| "sensor_device_loop configured_names ((device_name, device) # rest) added new_entities =
     (if configured_names \<noteq> [] \<and> \<not> key_in device_name configured_names
      then sensor_device_loop configured_names rest added new_entities
      else
        (case add_status_sensor device_name added new_entities of
           (added1, new1) \<Rightarrow>
             (case add_attribute_sensors device_name device added1 new1 of
                (added2, new2, err) \<Rightarrow>
                  if err = None then sensor_device_loop configured_names rest added2 new2
                  else (added2, new2, err))))"

text \<open>
  One pass of the sensor platform: the new set \<^verbatim>\<open>added\<close>, the entities handed to
  \<^verbatim>\<open>async_add_entities\<close> (none when the pass raises before the call, or finds nothing
  new), and the exception, if any.
\<close>

definition sensor_maybe_add_entities ::
  "pykey list \<Rightarrow> json pydict \<Rightarrow> string set \<Rightarrow> string set \<times> sensor_entity list \<times> py_error option" where
  "sensor_maybe_add_entities configured_names devices added =
     (case sensor_device_loop configured_names devices added [] of
        (added', new_entities, err) \<Rightarrow>
          (added', (if err = None then new_entities else []), err))"

subsection \<open>Buttons\<close>

record button_description =
  desc_key :: string
  desc_name :: string
  desc_icon :: string
  desc_command :: string
  device_types :: "string list"

definition BUTTON_DESCRIPTIONS :: "button_description list" where
  "BUTTON_DESCRIPTIONS =
     [\<lparr>desc_key = ''beeper_enable'', desc_name = ''Enable Beeper'',
        desc_icon = ''mdi:volume-high'', desc_command = ''beeper.enable'',
        device_types = [''nut'']\<rparr>,
      \<lparr>desc_key = ''beeper_disable'', desc_name = ''Disable Beeper'',
        desc_icon = ''mdi:volume-off'', desc_command = ''beeper.disable'',
        device_types = [''nut'']\<rparr>,
      \<lparr>desc_key = ''beeper_mute'', desc_name = ''Mute Beeper'',
        desc_icon = ''mdi:volume-mute'', desc_command = ''beeper.mute'',
        device_types = [''nut'']\<rparr>,
      \<lparr>desc_key = ''test_battery_start'', desc_name = ''Start Battery Test'',
        desc_icon = ''mdi:battery-sync'', desc_command = ''test.battery.start'',
        device_types = [''nut'']\<rparr>,
      \<lparr>desc_key = ''test_battery_stop'', desc_name = ''Stop Battery Test'',
        desc_icon = ''mdi:battery-check'', desc_command = ''test.battery.stop'',
        device_types = [''nut'']\<rparr>,
      \<lparr>desc_key = ''load_off'', desc_name = ''Turn Off Load'',
        desc_icon = ''mdi:power-plug-off'', desc_command = ''load.off'',
        device_types = [''nut'']\<rparr>,
      \<lparr>desc_key = ''load_on'', desc_name = ''Turn On Load'',
        desc_icon = ''mdi:power-plug'', desc_command = ''load.on'',
        device_types = [''nut'']\<rparr>]"

datatype button_entity = UPSCommandButton pykey button_description

text \<open>
  \<^verbatim>\<open>device_type not in desc.device_types\<close>: the types are strings, and only a str is equal
  to a str.
\<close>

fun type_in :: "json \<Rightarrow> string list \<Rightarrow> bool" where
  "type_in (JStr s) types = (s \<in> set types)"
| "type_in _ types = False"

text \<open>
  \<^verbatim>\<open>
  for desc in BUTTON_DESCRIPTIONS:
      if device_type not in desc.device_types:
          continue
      key = f"{entry.entry_id}-{device_name}-{desc.key}"
      if key in added:
          continue
      added.add(key)
      new_entities.append(UPSCommandButton(..., device_name, desc, ...))
  \<close>
\<close>

fun button_desc_loop ::
  "string \<Rightarrow> pykey \<Rightarrow> json \<Rightarrow> button_description list \<Rightarrow> string set \<Rightarrow> button_entity list
     \<Rightarrow> string set \<times> button_entity list" where
  "button_desc_loop entry_id device_name device_type [] added new_entities = (added, new_entities)"
| "button_desc_loop entry_id device_name device_type (desc # rest) added new_entities =
     (if \<not> type_in device_type (device_types desc)
      then button_desc_loop entry_id device_name device_type rest added new_entities
      else
        let key = entry_id @ ''-'' @ py_format device_name @ ''-'' @ desc_key desc in
        if key \<in> added
        then button_desc_loop entry_id device_name device_type rest added new_entities
        else button_desc_loop entry_id device_name device_type rest (insert key added)
               (new_entities @ [UPSCommandButton device_name desc]))"

text \<open>
  \<^verbatim>\<open>
  for device_name, device in devices.items():
      # Filter to configured devices if any are configured
      if configured_names and device_name not in configured_names:
          continue
      device_type = device.get("type", "nut")
      for desc in BUTTON_DESCRIPTIONS:
          ...
  \<close>
\<close>

definition add_buttons ::
  "string \<Rightarrow> pykey \<Rightarrow> json \<Rightarrow> string set \<Rightarrow> button_entity list
     \<Rightarrow> string set \<times> button_entity list \<times> py_error option" where
  "add_buttons entry_id device_name device added new_entities =
     (case py_get device ''type'' (JStr ''nut'') of
        Inl e \<Rightarrow> (added, new_entities, Some e)
      | Inr device_type \<Rightarrow>
          (case button_desc_loop entry_id device_name device_type BUTTON_DESCRIPTIONS
                  added new_entities of
             (added', new') \<Rightarrow> (added', new', None)))"

fun button_device_loop ::
  "string \<Rightarrow> pykey list \<Rightarrow> json pydict \<Rightarrow> string set \<Rightarrow> button_entity list
     \<Rightarrow> string set \<times> button_entity list \<times> py_error option" where
  "button_device_loop entry_id configured_names [] added new_entities =
     (added, new_entities, None)"
| "button_device_loop entry_id configured_names ((device_name, device) # rest) added new_entities =
     (if configured_names \<noteq> [] \<and> \<not> key_in device_name configured_names
      then button_device_loop entry_id configured_names rest added new_entities
      else
        (case add_buttons entry_id device_name device added new_entities of
           (added1, new1, err) \<Rightarrow>
             if err = None then button_device_loop entry_id configured_names rest added1 new1
             else (added1, new1, err)))"

definition button_maybe_add_entities ::
  "string \<Rightarrow> pykey list \<Rightarrow> json pydict \<Rightarrow> string set
     \<Rightarrow> string set \<times> button_entity list \<times> py_error option" where
  "button_maybe_add_entities entry_id configured_names devices added =
     (case button_device_loop entry_id configured_names devices added [] of
        (added', new_entities, err) \<Rightarrow>
          (added', (if err = None then new_entities else []), err))"

subsection \<open>A connection over time\<close>

text \<open>
  The state of one connection: the device mapping and the allow-list of the store, the
  two sets \<^verbatim>\<open>added\<close> of the platforms, and the log of every entity handed to the
  entity-add callbacks, in order. A step is the application of a payload to the store
  or one pass of a platform.
\<close>

record connection =
  conn_entry_id :: string
  conn_configured_names :: "pykey list"
  conn_devices :: "json pydict"
  sensor_added :: "string set"
  button_added :: "string set"
  sensor_emitted :: "sensor_entity list"
  button_emitted :: "button_entity list"

datatype step = Apply "json option" | SensorPass | ButtonPass

fun do_step :: "connection \<Rightarrow> step \<Rightarrow> connection" where
  "do_step c (Apply payload) =
     c\<lparr>conn_devices := new_devices (update_state (conn_devices c) payload)\<rparr>"
| "do_step c SensorPass =
     (case sensor_maybe_add_entities (conn_configured_names c) (conn_devices c) (sensor_added c) of
        (added', new_entities, err) \<Rightarrow>
          c\<lparr>sensor_added := added', sensor_emitted := sensor_emitted c @ new_entities\<rparr>)"
| "do_step c ButtonPass =
     (case button_maybe_add_entities (conn_entry_id c) (conn_configured_names c) (conn_devices c)
             (button_added c) of
        (added', new_entities, err) \<Rightarrow>
          c\<lparr>button_added := added', button_emitted := button_emitted c @ new_entities\<rparr>)"

fun run_steps :: "connection \<Rightarrow> step list \<Rightarrow> connection" where
  "run_steps c [] = c"
| "run_steps c (s # rest) = run_steps (do_step c s) rest"

text \<open>The key under which a platform records an entity in its set \<^verbatim>\<open>added\<close>.\<close>

fun sensor_key :: "sensor_entity \<Rightarrow> string" where
  "sensor_key (UPSStatusSensor device_name) = py_format device_name @ ''-status''"
| "sensor_key (UPSAttributeSensor device_name attr_key) = py_format device_name @ ''-'' @ attr_key"

fun button_key :: "string \<Rightarrow> button_entity \<Rightarrow> string" where
  "button_key entry_id (UPSCommandButton device_name desc) =
     entry_id @ ''-'' @ py_format device_name @ ''-'' @ desc_key desc"

text \<open>
  A pass that takes the set \<open>A\<close> to \<open>B\<close> and creates the entities \<open>ext\<close>: nothing leaves
  the set, and the created entities have pairwise different keys, all new to \<open>A\<close> and
  all in \<open>B\<close>.
\<close>

definition extends :: "('e \<Rightarrow> string) \<Rightarrow> string set \<Rightarrow> string set \<Rightarrow> 'e list \<Rightarrow> bool" where
  "extends key A B ext =
     (A \<subseteq> B \<and> distinct (map key ext) \<and> key ` set ext \<subseteq> B \<and> key ` set ext \<inter> A = {})"

text \<open>A connection after setup, before any snapshot and any pass.\<close>

definition fresh_connection :: "string \<Rightarrow> pykey list \<Rightarrow> connection" where
  "fresh_connection entry_id configured_names =
     \<lparr>conn_entry_id = entry_id, conn_configured_names = configured_names, conn_devices = [],
      sensor_added = {}, button_added = {}, sensor_emitted = [], button_emitted = []\<rparr>"

section \<open>The stream client: \<^verbatim>\<open>_listen_ws\<close>\<close>


text \<open>
  The coroutine runs on a single event loop: the stop event can change, and a
  cancellation can arrive, only while the coroutine is suspended, that is during a
  connection (handshake and reception) or during the sleep. Between the test
  \<^verbatim>\<open>while not stop_event.is_set()\<close> and the call of \<^verbatim>\<open>websockets.connect\<close> there is no
  suspension.

  What the environment does in one round of the loop is the input of the model. The
  connect attempt fails with an exception, or the connection is established, delivers
  messages (each given by the result of \<^verbatim>\<open>json.loads\<close>) and then ends: either the
  iteration \<^verbatim>\<open>async for message in websocket\<close> ends without an exception, as it does when
  the server closes the connection cleanly, or an exception is raised. The exceptions
  are those the handlers tell apart. Further, the stop event may be set during the
  connection, the sleep may be cancelled, and the stop event may be set during the
  sleep.
\<close>

datatype ws_exception = ConnectionClosedOK | ConnectionClosedError | OtherException | CancelledError















section \<open>Properties of the snapshot store\<close>

lemma key_eq_refl [simp]: "key_eq k k"
  by (simp add: key_eq_def)

lemma key_eq_sym: "key_eq a b = key_eq b a"
  by (auto simp: key_eq_def)

lemma key_eq_trans: "key_eq a b \<Longrightarrow> key_eq b c \<Longrightarrow> key_eq a c"
  by (simp add: key_eq_def)

lemma update_loop_stores:
  "fst (update_loop d xs names) = stores d (stored_entries xs)"
  by (induction xs arbitrary: d names) (auto split: sum.splits option.splits)

lemma stores_Cons:
  "stores ((k, v) # d) ps = (k, newval k v ps) # stores d (others k ps)"
proof (induction ps arbitrary: v d)
  case Nil
  show ?case by (simp add: others_def)
next
  case (Cons p ps)
  obtain k1 v1 where p: "p = (k1, v1)" by (cases p)
  show ?case
  proof (cases "key_eq k k1")
    case True
    then show ?thesis using Cons [of v1 d] by (simp add: p others_def)
  next
    case False
    then show ?thesis using Cons [of v "dict_store k1 v1 d"] by (simp add: p others_def)
  qed
qed

lemma stores_Nil:
  "stores [] ((k, v) # ps) = (k, newval k v ps) # stores [] (others k ps)"
  using stores_Cons [of k v "[]" ps] by simp

lemma newval_cases:
  "newval k v ps = newval k w ps \<or> (newval k v ps = v \<and> newval k w ps = w)"
proof (induction ps arbitrary: v w)
  case Nil
  show ?case by simp
next
  case (Cons p ps)
  obtain k1 v1 where p: "p = (k1, v1)" by (cases p)
  show ?case using Cons [of v w] by (simp add: p)
qed

lemma newval_fixed: "newval k (newval k v ps) ps = newval k v ps"
  using newval_cases [of k "newval k v ps" ps v] by auto

lemma length_others: "length (others k ps) \<le> length ps"
  by (simp add: others_def)

lemma stores_idem: "stores (stores d ps) ps = stores d ps"
proof (induction "length d + length ps" arbitrary: d ps rule: less_induct)
  case less
  show ?case
  proof (cases d)
    case (Cons e d')
    obtain k v where e: "e = (k, v)" by (cases e)
    have "length d' + length (others k ps) < length d + length ps"
      using length_others [of k ps] by (simp add: Cons)
    then have ih: "stores (stores d' (others k ps)) (others k ps) = stores d' (others k ps)"
      by (rule less)
    show ?thesis
      by (simp add: Cons e stores_Cons ih newval_fixed)
  next
    case Nil
    show ?thesis
    proof (cases ps)
      case Nil
      then show ?thesis by (simp add: \<open>d = []\<close>)
    next
      case (Cons p ps')
      obtain k v where p: "p = (k, v)" by (cases p)
      have "length ([] :: 'a pydict) + length (others k ps') < length d + length ps"
        using length_others [of k ps'] by (simp add: Cons)
      then have ih: "stores (stores [] (others k ps')) (others k ps') = stores [] (others k ps')"
        by (rule less)
      have o: "others k ((k, v) # ps') = others k ps'"
        by (simp add: others_def)
      show ?thesis
        unfolding \<open>d = []\<close> Cons p stores_Nil stores_Cons o
        by (simp add: ih)
    qed
  qed
qed

lemma new_devices_update_state:
  "new_devices (update_state d p) =
     (case p of None \<Rightarrow> d | Some data \<Rightarrow> stores d (stored_entries (as_list data)))"
proof (cases p)
  case None
  then show ?thesis by (simp add: update_state_def)
next
  case (Some data)
  have "new_devices (update_state d (Some data)) = fst (update_loop d (as_list data) [])"
    by (simp add: update_state_def split: prod.splits)
  then show ?thesis by (simp add: Some update_loop_stores)
qed

text \<open>
  C8. Idempotent apply: for every device mapping and every payload, applying the same
  payload a second time leaves the device mapping exactly as the first application
  left it. This holds for every decoded payload, also one that is not a list and one
  on which the loop raises part of the way through.
\<close>

theorem idempotent_apply:
  "new_devices (update_state (new_devices (update_state devices payload)) payload) =
   new_devices (update_state devices payload)"
  by (cases payload) (simp_all add: new_devices_update_state stores_idem)

theorem idempotent_apply_witness:
  "new_devices (update_state (new_devices (update_state
      [(KStr ''ups2'', JDict [(''device_name'', JStr ''ups2'')])]
      (Some (JList [JDict [(''device_name'', JStr ''ups1''), (''type'', JStr ''nut'')],
                    JDict [(''device_name'', JStr ''ups2''), (''type'', JStr ''apcupsd'')]]))))
      (Some (JList [JDict [(''device_name'', JStr ''ups1''), (''type'', JStr ''nut'')],
                    JDict [(''device_name'', JStr ''ups2''), (''type'', JStr ''apcupsd'')]])))
   = [(KStr ''ups2'', JDict [(''device_name'', JStr ''ups2''), (''type'', JStr ''apcupsd'')]),
      (KStr ''ups1'', JDict [(''device_name'', JStr ''ups1''), (''type'', JStr ''nut'')])]"
  using idempotent_apply
    [of "[(KStr ''ups2'', JDict [(''device_name'', JStr ''ups2'')])]"
        "Some (JList [JDict [(''device_name'', JStr ''ups1''), (''type'', JStr ''nut'')],
                      JDict [(''device_name'', JStr ''ups2''), (''type'', JStr ''apcupsd'')]])"]
  by (simp add: update_state_def key_eq_def)

subsection \<open>Merging\<close>

lemma lookup_dict_store:
  "dict_lookup k (dict_store k' v d) = (if key_eq k' k then Some v else dict_lookup k d)"
proof (induction d)
  case Nil
  show ?case by simp
next
  case (Cons e d)
  obtain k1 v1 where e: "e = (k1, v1)" by (cases e)
  show ?case
  proof (cases "key_eq k1 k'")
    case True
    then have "key_eq k1 k = key_eq k' k"
      by (auto simp: key_eq_def)
    with True show ?thesis by (simp add: e)
  next
    case False
    then have "\<not> (key_eq k1 k \<and> key_eq k' k)"
      by (auto simp: key_eq_def)
    with False show ?thesis using Cons by (auto simp: e)
  qed
qed

lemma lookup_stores:
  "dict_lookup k (stores d ps) =
     (case last_named k ps of Some w \<Rightarrow> Some w | None \<Rightarrow> dict_lookup k d)"
proof (induction ps arbitrary: d)
  case Nil
  show ?case by simp
next
  case (Cons p ps)
  obtain k1 v1 where p: "p = (k1, v1)" by (cases p)
  show ?case
    by (simp add: p Cons lookup_dict_store split: option.splits)
qed

lemma last_named_None:
  "(\<forall>p \<in> set ps. \<not> key_eq (fst p) k) \<Longrightarrow> last_named k ps = None"
  by (induction ps) auto

lemma stored_entries_keys:
  "p \<in> set (stored_entries xs) \<Longrightarrow> \<exists>x \<in> set xs. entry_key x = Some (fst p) \<and> snd p = x"
  by (induction xs) (auto simp: entry_key_def split: sum.splits option.splits if_splits)

text \<open>
  C9. Merge, not replace-all: applying a snapshot list in which no entry names device
  \<open>b\<close> leaves the entry of \<open>b\<close> in the mapping as it was; no device known before an
  apply is missing after it; and the entry found under any name after the apply is the
  last entry of the list stored under that name, or else the entry that was there
  before.
\<close>

theorem merge_not_replace_all:
  "((\<forall>x \<in> set xs. \<forall>k. entry_key x = Some k \<longrightarrow> \<not> key_eq k b) \<longrightarrow>
      dict_lookup b (new_devices (update_state devices (Some (JList xs)))) = dict_lookup b devices)
   \<and> (dict_lookup b devices \<noteq> None \<longrightarrow>
      dict_lookup b (new_devices (update_state devices payload)) \<noteq> None)
   \<and> dict_lookup b (new_devices (update_state devices (Some (JList xs)))) =
      (case last_named b (stored_entries xs) of
         Some device \<Rightarrow> Some device
       | None \<Rightarrow> dict_lookup b devices)"
proof (intro conjI impI)
  assume a: "\<forall>x \<in> set xs. \<forall>k. entry_key x = Some k \<longrightarrow> \<not> key_eq k b"
  have "\<forall>p \<in> set (stored_entries xs). \<not> key_eq (fst p) b"
    using a stored_entries_keys by blast
  then have "last_named b (stored_entries xs) = None"
    by (rule last_named_None)
  then show "dict_lookup b (new_devices (update_state devices (Some (JList xs)))) =
      dict_lookup b devices"
    by (simp add: new_devices_update_state lookup_stores)
next
  assume "dict_lookup b devices \<noteq> None"
  then show "dict_lookup b (new_devices (update_state devices payload)) \<noteq> None"
    by (cases payload) (auto simp: new_devices_update_state lookup_stores split: option.splits)
next
  show "dict_lookup b (new_devices (update_state devices (Some (JList xs)))) =
      (case last_named b (stored_entries xs) of
         Some device \<Rightarrow> Some device
       | None \<Rightarrow> dict_lookup b devices)"
    by (simp add: new_devices_update_state lookup_stores)
qed

theorem merge_not_replace_all_witness:
  "dict_lookup (KStr ''B'')
     (new_devices (update_state
        [(KStr ''A'', JDict [(''device_name'', JStr ''A''), (''type'', JStr ''nut'')]),
         (KStr ''B'', JDict [(''device_name'', JStr ''B''), (''type'', JStr ''apcupsd'')])]
        (Some (JList [JDict [(''device_name'', JStr ''A''), (''type'', JStr ''apcupsd'')]]))))
   = Some (JDict [(''device_name'', JStr ''B''), (''type'', JStr ''apcupsd'')])
   \<and> dict_lookup (KStr ''A'')
     (new_devices (update_state
        [(KStr ''A'', JDict [(''device_name'', JStr ''A''), (''type'', JStr ''nut'')]),
         (KStr ''B'', JDict [(''device_name'', JStr ''B''), (''type'', JStr ''apcupsd'')])]
        (Some (JList [JDict [(''device_name'', JStr ''A''), (''type'', JStr ''apcupsd'')]]))))
   = Some (JDict [(''device_name'', JStr ''A''), (''type'', JStr ''apcupsd'')])"
  using merge_not_replace_all
    [of "[JDict [(''device_name'', JStr ''A''), (''type'', JStr ''apcupsd'')]]"
        "KStr ''B''"
        "[(KStr ''A'', JDict [(''device_name'', JStr ''A''), (''type'', JStr ''nut'')]),
          (KStr ''B'', JDict [(''device_name'', JStr ''B''), (''type'', JStr ''apcupsd'')])]"
        "Some (JList [JDict [(''device_name'', JStr ''A''), (''type'', JStr ''apcupsd'')]])"]
  by (simp add: update_state_def key_eq_def entry_key_def)

subsection \<open>Entries without a name\<close>

lemma update_loop_well_formed:
  "(\<forall>x \<in> set xs. well_formed_entry x) \<Longrightarrow> snd (snd (update_loop d xs names)) = None"
  by (induction xs arbitrary: d names)
     (auto simp: well_formed_entry_def split: sum.splits option.splits)

lemma update_loop_skip:
  "lacks_name x \<Longrightarrow> update_loop d (x # xs) names = update_loop d xs names"
  by (auto simp: lacks_name_def split: sum.splits)

lemma update_loop_drop_nameless:
  "update_loop d (filter (\<lambda>x. \<not> lacks_name x) xs) names = update_loop d xs names"
proof (induction xs arbitrary: d names)
  case Nil
  show ?case by simp
next
  case (Cons x xs)
  show ?case
  proof (cases "lacks_name x")
    case True
    then show ?thesis using Cons by (simp only: update_loop_skip filter.simps not_True_eq_False if_False)
  next
    case False
    then show ?thesis by (simp add: Cons split: sum.splits option.splits)
  qed
qed

lemma update_loop_all_nameless:
  "(\<forall>x \<in> set xs. lacks_name x) \<Longrightarrow> update_loop d xs names = (d, names, None)"
  by (induction xs arbitrary: d names)
     (auto simp: lacks_name_def split: sum.splits option.splits)

text \<open>
  C5, as the code has it. For every device mapping and every snapshot list:
  if every entry is an object whose name, when truthy, is hashable, the apply raises
  nothing and sends the change signal; removing the entries that lack a device name
  from the list changes nothing of the outcome (mapping, updated names, signal,
  exception); and a list of entries that all lack a name leaves the mapping as it
  was, with no updated name. The code keeps the names it applied and no count of the
  entries it dropped.
\<close>

theorem apply_tolerates_nameless:
  "((\<forall>x \<in> set xs. well_formed_entry x) \<longrightarrow>
      raised (update_state devices (Some (JList xs))) = None
      \<and> signalled (update_state devices (Some (JList xs))))
   \<and> update_state devices (Some (JList (filter (\<lambda>x. \<not> lacks_name x) xs))) =
      update_state devices (Some (JList xs))
   \<and> ((\<forall>x \<in> set xs. lacks_name x) \<longrightarrow>
      update_state devices (Some (JList xs)) =
        \<lparr>new_devices = devices, updated = [], signalled = True, raised = None\<rparr>)"
proof (intro conjI impI)
  assume "\<forall>x \<in> set xs. well_formed_entry x"
  then have "snd (snd (update_loop devices xs [])) = None"
    by (rule update_loop_well_formed)
  then show "raised (update_state devices (Some (JList xs))) = None"
    and "signalled (update_state devices (Some (JList xs)))"
    by (cases "update_loop devices xs []"; simp add: update_state_def)+
next
  show "update_state devices (Some (JList (filter (\<lambda>x. \<not> lacks_name x) xs))) =
      update_state devices (Some (JList xs))"
    by (simp add: update_state_def update_loop_drop_nameless)
next
  assume "\<forall>x \<in> set xs. lacks_name x"
  then have "update_loop devices xs [] = (devices, [], None)"
    by (rule update_loop_all_nameless)
  then show "update_state devices (Some (JList xs)) =
      \<lparr>new_devices = devices, updated = [], signalled = True, raised = None\<rparr>"
    by (simp add: update_state_def)
qed

theorem apply_tolerates_nameless_witness:
  "update_state [(KStr ''ups1'', JDict [(''device_name'', JStr ''ups1'')])]
     (Some (JList [JDict [(''attributes'', JDict [])], JDict [(''device_name'', JNull)]]))
   = \<lparr>new_devices = [(KStr ''ups1'', JDict [(''device_name'', JStr ''ups1'')])],
      updated = [], signalled = True, raised = None\<rparr>"
  using apply_tolerates_nameless
    [of "[JDict [(''attributes'', JDict [])], JDict [(''device_name'', JNull)]]"
        "[(KStr ''ups1'', JDict [(''device_name'', JStr ''ups1'')])]"]
  by (simp add: lacks_name_def well_formed_entry_def)

text \<open>
  The apply does raise on some shapes of entry: an entry that is not an object has no
  \<^verbatim>\<open>get\<close> (AttributeError), and a list used as device name is unhashable (TypeError).
\<close>

theorem apply_raises_counterexample:
  "raised (update_state [] (Some (JList [JStr ''ups1'']))) = Some AttributeError
   \<and> raised (update_state []
        (Some (JList [JDict [(''device_name'', JList [JStr ''ups1''])]]))) = Some TypeError"
  by (simp add: update_state_def)

section \<open>Properties of the status derivation\<close>

lemma lower_OB: "lower ''OB'' = ''ob''"
  by (simp add: lower_def lower_char_def)

lemma lower_1: "lower ''1'' = ''1''"
  by (simp add: lower_def lower_char_def)

lemma lower_Nil: "lower [] = []"
  by (simp add: lower_def)

lemma get_ups_status_attrs:
  "ps \<noteq> [] \<Longrightarrow> map_of ps ''attributes'' = Some (JDict as) \<Longrightarrow>
   get_ups_status cs (JDict ps) =
     Inr (if (\<exists>token \<in> {''onbatt'', ''on battery'', ''ob'', ''on_battery''}.
                sublist token (attr_text cs as ''status''))
             \<or> attr_text cs as ''xon_battery'' \<in> {''1'', ''true'', ''yes''}
          then ''On Battery'' else ''Online'')"
  by (cases "as = []") (simp_all add: get_ups_status_def attr_text_def lower_Nil)

lemma get_ups_status_no_attrs:
  "ps \<noteq> [] \<Longrightarrow> (case map_of ps ''attributes'' of None \<Rightarrow> True | Some a \<Rightarrow> \<not> truthy a) \<Longrightarrow>
   get_ups_status cs (JDict ps) = Inr ''Online''"
  by (simp add: get_ups_status_def lower_Nil split: option.splits)

text \<open>
  C2, as the code has it. A missing device (\<^verbatim>\<open>None\<close> or an empty record) gives
  "offline", and "Online" is never returned for it. For a device whose attributes are
  an object: status "OB" or xon_battery "1" gives "On Battery"; the result is
  "On Battery" exactly when the lower-cased text of status contains one of onbatt,
  on battery, ob, on_battery, or the lower-cased text of xon_battery is one of 1, true,
  yes, and "Online" otherwise; in particular it is "Online" when both attributes are
  missing, and when the device has no attributes.
\<close>

theorem status_derivation:
  "(\<not> truthy device \<longrightarrow> get_ups_status cs device = Inr ''offline'')
   \<and> (get_ups_status cs device = Inr ''Online'' \<longrightarrow> truthy device)
   \<and> (ps \<noteq> [] \<and> map_of ps ''attributes'' = Some (JDict as) \<longrightarrow>
        ((map_of as ''status'' = Some (JStr ''OB'') \<or> map_of as ''xon_battery'' = Some (JStr ''1''))
           \<longrightarrow> get_ups_status cs (JDict ps) = Inr ''On Battery'')
        \<and> get_ups_status cs (JDict ps) =
            Inr (if (\<exists>token \<in> {''onbatt'', ''on battery'', ''ob'', ''on_battery''}.
                       sublist token (attr_text cs as ''status''))
                    \<or> attr_text cs as ''xon_battery'' \<in> {''1'', ''true'', ''yes''}
                 then ''On Battery'' else ''Online'')
        \<and> (map_of as ''status'' = None \<and> map_of as ''xon_battery'' = None
           \<longrightarrow> get_ups_status cs (JDict ps) = Inr ''Online''))
   \<and> (ps \<noteq> [] \<and> (case map_of ps ''attributes'' of None \<Rightarrow> True | Some a \<Rightarrow> \<not> truthy a)
        \<longrightarrow> get_ups_status cs (JDict ps) = Inr ''Online'')"
proof (intro conjI impI)
  assume "\<not> truthy device"
  then show "get_ups_status cs device = Inr ''offline''"
    by (simp add: get_ups_status_def)
next
  assume "get_ups_status cs device = Inr ''Online''"
  then show "truthy device"
    by (cases "truthy device") (simp_all add: get_ups_status_def)
next
  assume a: "ps \<noteq> [] \<and> map_of ps ''attributes'' = Some (JDict as)"
    and b: "map_of as ''status'' = Some (JStr ''OB'') \<or> map_of as ''xon_battery'' = Some (JStr ''1'')"
  from b show "get_ups_status cs (JDict ps) = Inr ''On Battery''"
  proof
    assume "map_of as ''status'' = Some (JStr ''OB'')"
    then have "attr_text cs as ''status'' = ''ob''"
      by (simp add: attr_text_def lower_OB)
    then show ?thesis using a by (simp add: get_ups_status_attrs)
  next
    assume "map_of as ''xon_battery'' = Some (JStr ''1'')"
    then have "attr_text cs as ''xon_battery'' = ''1''"
      by (simp add: attr_text_def lower_1)
    then show ?thesis using a by (simp add: get_ups_status_attrs)
  qed
next
  assume a: "ps \<noteq> [] \<and> map_of ps ''attributes'' = Some (JDict as)"
  then show "get_ups_status cs (JDict ps) =
      Inr (if (\<exists>token \<in> {''onbatt'', ''on battery'', ''ob'', ''on_battery''}.
                 sublist token (attr_text cs as ''status''))
              \<or> attr_text cs as ''xon_battery'' \<in> {''1'', ''true'', ''yes''}
           then ''On Battery'' else ''Online'')"
    using get_ups_status_attrs [of ps as cs] by blast
next
  assume a: "ps \<noteq> [] \<and> map_of ps ''attributes'' = Some (JDict as)"
    and b: "map_of as ''status'' = None \<and> map_of as ''xon_battery'' = None"
  from b have "attr_text cs as ''status'' = []" "attr_text cs as ''xon_battery'' = []"
    by (simp_all add: attr_text_def lower_Nil)
  then show "get_ups_status cs (JDict ps) = Inr ''Online''"
    using a by (simp add: get_ups_status_attrs)
next
  assume "ps \<noteq> [] \<and> (case map_of ps ''attributes'' of None \<Rightarrow> True | Some a \<Rightarrow> \<not> truthy a)"
  then show "get_ups_status cs (JDict ps) = Inr ''Online''"
    by (simp add: get_ups_status_no_attrs)
qed

theorem status_derivation_witness:
  "get_ups_status no_container_str JNull = Inr ''offline''
   \<and> get_ups_status no_container_str
       (JDict [(''device_name'', JStr ''ups1''),
               (''attributes'', JDict [(''status'', JStr ''OB''), (''battery_charge'', JInt 80)])])
     = Inr ''On Battery''"
  using status_derivation
    [of JNull no_container_str
        "[(''device_name'', JStr ''ups1''),
          (''attributes'', JDict [(''status'', JStr ''OB''), (''battery_charge'', JInt 80)])]"
        "[(''status'', JStr ''OB''), (''battery_charge'', JInt 80)]"]
  by simp

text \<open>
  A status other than "OB", with no xon_battery attribute, for which the result is
  not "Online": apcupsd reports "ONBATT".
\<close>

theorem status_derivation_counterexample:
  "get_ups_status no_container_str
     (JDict [(''device_name'', JStr ''ups1''),
             (''attributes'', JDict [(''status'', JStr ''ONBATT'')])])
   = Inr ''On Battery''"
  by (simp add: get_ups_status_def lower_def lower_char_def sublist_Cons_right)

section \<open>Properties of the attribute normalisation\<close>

lemma py_float_errors:
  "py_float conv v = Inl e \<Longrightarrow>
   e = TypeError \<or> e = ValueError \<or> (e = OverflowError \<and> (\<exists>n. v = JInt n \<and> \<bar>n\<bar> \<ge> 2 ^ 1024 - 2 ^ 970))"
  by (cases v) (auto split: if_splits option.splits)

text \<open>
  What holds of the function: \<^verbatim>\<open>None\<close> gives \<^verbatim>\<open>None\<close>; an attribute outside the three
  groups is returned unchanged; a value whose conversion raises ValueError or
  TypeError is returned unchanged; and the function returns for every value that is
  not an int too large for a float.
\<close>

lemma normalize_attribute_value_returns:
  "normalize_attribute_value conv attribute JNull = Inr JNull
   \<and> (attribute \<noteq> ''time_left'' \<and> attribute \<noteq> ''time_on_battery'' \<and> attribute \<notin> set numeric_attrs
        \<longrightarrow> normalize_attribute_value conv attribute v = Inr v)
   \<and> ((py_float conv v = Inl ValueError \<or> py_float conv v = Inl TypeError)
        \<longrightarrow> normalize_attribute_value conv attribute v = Inr v)
   \<and> ((\<forall>n. v = JInt n \<longrightarrow> \<bar>n\<bar> < 2 ^ 1024 - 2 ^ 970)
        \<longrightarrow> (\<exists>r. normalize_attribute_value conv attribute v = Inr r))"
proof (intro conjI impI)
  show "normalize_attribute_value conv attribute JNull = Inr JNull"
    by (simp add: normalize_attribute_value_def)
next
  assume "attribute \<noteq> ''time_left'' \<and> attribute \<noteq> ''time_on_battery'' \<and> attribute \<notin> set numeric_attrs"
  then show "normalize_attribute_value conv attribute v = Inr v"
    by (simp add: normalize_attribute_value_def)
next
  assume "py_float conv v = Inl ValueError \<or> py_float conv v = Inl TypeError"
  then show "normalize_attribute_value conv attribute v = Inr v"
    by (auto simp: normalize_attribute_value_def try_convert_def)
next
  assume a: "\<forall>n. v = JInt n \<longrightarrow> \<bar>n\<bar> < 2 ^ 1024 - 2 ^ 970"
  have "\<exists>r. try_convert (py_float conv v) f v = Inr r" for f
  proof (cases "py_float conv v")
    case (Inl e)
    then have "e = TypeError \<or> e = ValueError"
      using py_float_errors [OF Inl] a by fastforce
    then show ?thesis by (auto simp: try_convert_def Inl)
  next
    case (Inr x)
    then show ?thesis by (simp add: try_convert_def)
  qed
  then show "\<exists>r. normalize_attribute_value conv attribute v = Inr r"
    by (simp add: normalize_attribute_value_def)
qed

text \<open>
  C10. The function is not total: for an attribute of the numeric groups and an
  integer too large for a float, \<^verbatim>\<open>float(value)\<close> raises OverflowError, which
  \<^verbatim>\<open>except (ValueError, TypeError)\<close> does not catch. A JSON payload can carry such an
  integer (\<^verbatim>\<open>json.loads\<close> decodes integer literals of any size to int).
\<close>

theorem normalize_attribute_value_overflow:
  "normalize_attribute_value conv ''time_left'' (JInt (10 ^ 400)) = Inl OverflowError
   \<and> normalize_attribute_value conv ''battery_charge'' (JInt (10 ^ 400)) = Inl OverflowError"
  by (simp add: normalize_attribute_value_def try_convert_def numeric_attrs_def)

section \<open>Properties of the endpoint address conversion\<close>

text \<open>
  C6, as the code has it. For every server address: the empty address is rejected
  with \<^verbatim>\<open>None\<close>; for an address that \<^verbatim>\<open>urlparse\<close> splits, \<open>ws\<close> becomes \<open>http\<close>,
  \<open>wss\<close> becomes \<open>https\<close>, \<open>http\<close> and \<open>https\<close> stay as they are, and every other scheme
  is rejected with \<^verbatim>\<open>None\<close>. In every accepted case the result is assembled from the
  converted scheme, the unchanged host part and the requested path: the path, params,
  query and fragment of the address itself are dropped, also for an address that
  already has the scheme \<open>http\<close> or \<open>https\<close>.
\<close>

theorem build_http_url_scheme:
  "build_http_url urlparse urlunparse server_url new_path =
     (if server_url = [] then Inr None
      else case urlparse server_url of
        Inl e \<Rightarrow> Inl e
      | Inr parsed \<Rightarrow>
          (case spec_http_scheme (scheme parsed) of
             None \<Rightarrow> Inr None
           | Some s \<Rightarrow>
               Inr (Some (urlunparse
                 \<lparr>scheme = s, netloc = netloc parsed, path = new_path,
                  params = [], query = [], fragment = []\<rparr>))))"
  by (auto simp: build_http_url_def spec_http_scheme_def split: sum.splits)

theorem build_http_url_scheme_witness:
  "build_http_url urlparse_known urlunparse_host DEFAULT_SERVER_URL ''/api/status''
     = Inr (Some ''http://homeassistant.local:8080/api/status'')
   \<and> build_http_url urlparse_known urlunparse_host [] ''/api/status'' = Inr None"
  using build_http_url_scheme [of urlparse_known urlunparse_host DEFAULT_SERVER_URL "''/api/status''"]
    build_http_url_scheme [of urlparse_known urlunparse_host "[]" "''/api/status''"]
  by (simp add: DEFAULT_SERVER_URL_def urlparse_known_def urlunparse_host_def spec_http_scheme_def)

text \<open>
  An address that already uses the scheme \<open>http\<close> does not pass through unchanged: with
  the empty path, as \<^verbatim>\<open>async_setup_entry\<close> calls the function for the base address, the
  path \<open>/ws\<close> of the address is lost.
\<close>

theorem build_http_url_unchanged_counterexample:
  "build_http_url urlparse_known urlunparse_host ''http://homeassistant.local:8080/ws'' []
     = Inr (Some ''http://homeassistant.local:8080'')
   \<and> build_http_url urlparse_known urlunparse_host ''http://homeassistant.local:8080/ws'' []
     \<noteq> Inr (Some ''http://homeassistant.local:8080/ws'')"
  by (simp add: build_http_url_def urlparse_known_def urlunparse_host_def)

section \<open>Properties of the initial seed\<close>












section \<open>Properties of the command dispatcher\<close>

text \<open>
  C3, as the code has it. With a base address available: a response of status 400 or
  above whose body is an object leaves the Command Result with success false and the
  body's error field as error ("busy" for a body with error "busy"), or "unknown error"
  when the field is absent, and raises; a failure of the transport (the post or the
  decoding of the body raises) leaves the Command Result with success false and the
  text of the exception as error, and raises. That text is non-empty only when the
  exception carries a message.
\<close>

theorem command_result_shape:
  "(base \<noteq> [] \<and> status \<ge> 400 \<longrightarrow>
      (map_of body ''error'' = Some (JStr ''busy'') \<longrightarrow>
         last_result (async_press previous (Some base) name device command
                        (PostResponse status (JDict body)))
           = Some (JDict [(''success'', JBool False), (''error'', JStr ''busy'')]))
      \<and> last_result (async_press previous (Some base) name device command
                        (PostResponse status (JDict body)))
           = Some (JDict [(''success'', JBool False),
                          (''error'', (case map_of body ''error'' of
                                         Some message \<Rightarrow> message
                                       | None \<Rightarrow> JStr ''unknown error''))])
      \<and> press_raised (async_press previous (Some base) name device command
                        (PostResponse status (JDict body))) \<noteq> None)
   \<and> (base \<noteq> [] \<and> (exchange = PostRaised err \<or> exchange = BodyRaised status err) \<longrightarrow>
        last_result (async_press previous (Some base) name device command exchange)
          = Some (JDict [(''success'', JBool False), (''error'', JStr (exn_text err))])
        \<and> press_raised (async_press previous (Some base) name device command exchange)
          = Some (CommandFailed name err))"
  by (auto simp: async_press_def on_exception_def failure_result_def)

theorem command_result_shape_witness:
  "last_result (async_press None (Some ''http://homeassistant.local:8080'') ''Mute Beeper''
       (KStr ''ups1'') ''beeper.mute'' (PostResponse 503 (JDict [(''error'', JStr ''busy'')])))
     = Some (JDict [(''success'', JBool False), (''error'', JStr ''busy'')])
   \<and> last_result (async_press None (Some ''http://homeassistant.local:8080'') ''Mute Beeper''
       (KStr ''ups1'') ''beeper.mute'' (PostRaised (PyExn ''ClientConnectorError'' ''Cannot connect to host'')))
     = Some (JDict [(''success'', JBool False), (''error'', JStr ''Cannot connect to host'')])"
  using command_result_shape
    [of "''http://homeassistant.local:8080''" 503 "[(''error'', JStr ''busy'')]" None
        "''Mute Beeper''" "KStr ''ups1''" "''beeper.mute''"
        "PostRaised (PyExn ''ClientConnectorError'' ''Cannot connect to host'')"
        "PyExn ''ClientConnectorError'' ''Cannot connect to host''"]
  by simp

text \<open>
  A timeout of the request: the Command Result has success false and an empty error
  string.
\<close>

theorem command_result_timeout_counterexample:
  "last_result (async_press None (Some ''http://homeassistant.local:8080'') ''Mute Beeper''
       (KStr ''ups1'') ''beeper.mute'' (PostRaised asyncio_TimeoutError))
     = Some (JDict [(''success'', JBool False), (''error'', JStr '''')])"
  by (simp add: async_press_def on_exception_def failure_result_def asyncio_TimeoutError_def)

section \<open>Properties of discovery\<close>

lemma extends_refl: "extends key A A []"
  by (simp add: extends_def)

lemma extends_trans:
  assumes "extends key A B e1" and "extends key B C e2"
  shows "extends key A C (e1 @ e2)"
proof -
  have a: "A \<subseteq> B" "distinct (map key e1)" "key ` set e1 \<subseteq> B" "key ` set e1 \<inter> A = {}"
    using assms(1) by (simp_all add: extends_def)
  have b: "B \<subseteq> C" "distinct (map key e2)" "key ` set e2 \<subseteq> C" "key ` set e2 \<inter> B = {}"
    using assms(2) by (simp_all add: extends_def)
  have 1: "A \<subseteq> C" using a(1) b(1) by blast
  have "key ` set e1 \<inter> key ` set e2 = {}" using a(3) b(4) by blast
  then have 2: "distinct (map key (e1 @ e2))" using a(2) b(2) by simp
  have 3: "key ` set (e1 @ e2) \<subseteq> C" using a(3) b(1) b(3) by (auto simp: image_Un)
  have 4: "key ` set (e1 @ e2) \<inter> A = {}" using a(1) a(4) b(4) by (auto simp: image_Un)
  show ?thesis unfolding extends_def using 1 2 3 4 by blast
qed

lemma extends_single: "key f \<notin> A \<Longrightarrow> extends key A (insert (key f) A) [f]"
  by (simp add: extends_def) blast

lemma extends_drop: "extends key A B ext \<Longrightarrow> extends key A B []"
  by (simp add: extends_def)

lemma sensor_attr_loop_extends:
  "sensor_attr_loop n ks added new = (added', new') \<Longrightarrow>
   \<exists>ext. new' = new @ ext \<and> extends sensor_key added added' ext"
proof (induction ks arbitrary: added new)
  case Nil
  then show ?case by (simp add: extends_refl)
next
  case (Cons k ks)
  let ?key = "py_format n @ ''-'' @ k"
  have eq: "sensor_attr_loop n (k # ks) added new =
      (if ?key \<in> added \<or> k = ''status'' then sensor_attr_loop n ks added new
       else sensor_attr_loop n ks (insert ?key added) (new @ [UPSAttributeSensor n k]))"
    by (simp add: Let_def)
  show ?case
  proof (cases "?key \<in> added \<or> k = ''status''")
    case True
    then have "sensor_attr_loop n ks added new = (added', new')"
      using Cons.prems unfolding eq by (simp only: if_True)
    then show ?thesis by (rule Cons.IH)
  next
    case False
    then have "sensor_attr_loop n ks (insert ?key added) (new @ [UPSAttributeSensor n k])
        = (added', new')"
      using Cons.prems unfolding eq by (simp only: if_False)
    then obtain ext where e: "new' = (new @ [UPSAttributeSensor n k]) @ ext"
      "extends sensor_key (insert ?key added) added' ext"
      using Cons.IH by blast
    have k: "sensor_key (UPSAttributeSensor n k) = ?key"
      by simp
    have "extends sensor_key added (insert (sensor_key (UPSAttributeSensor n k)) added)
        [UPSAttributeSensor n k]"
      using False by (intro extends_single) (simp only: k, simp)
    then have "extends sensor_key added (insert ?key added) [UPSAttributeSensor n k]"
      by (simp only: k)
    then have "extends sensor_key added added' ([UPSAttributeSensor n k] @ ext)"
      using e(2) by (rule extends_trans)
    with e(1) show ?thesis by (intro exI [of _ "[UPSAttributeSensor n k] @ ext"]) simp
  qed
qed

lemma add_status_sensor_extends:
  "add_status_sensor n added new = (added', new') \<Longrightarrow>
   \<exists>ext. new' = new @ ext \<and> extends sensor_key added added' ext"
proof (cases "py_format n @ ''-status'' \<in> added")
  case True
  assume "add_status_sensor n added new = (added', new')"
  with True have "added' = added" "new' = new"
    by (simp_all add: add_status_sensor_def)
  then show ?thesis by (simp add: extends_refl)
next
  case False
  assume "add_status_sensor n added new = (added', new')"
  with False have r: "added' = insert (py_format n @ ''-status'') added"
    "new' = new @ [UPSStatusSensor n]"
    by (simp_all add: add_status_sensor_def)
  have k: "sensor_key (UPSStatusSensor n) = py_format n @ ''-status''"
    by simp
  have "extends sensor_key added (insert (sensor_key (UPSStatusSensor n)) added)
      [UPSStatusSensor n]"
    using False by (intro extends_single) (simp only: k, simp)
  then have "extends sensor_key added added' [UPSStatusSensor n]"
    by (simp only: k r)
  with r(2) show ?thesis by blast
qed

lemma add_attribute_sensors_extends:
  assumes p: "add_attribute_sensors n dev added new = (added', new', err)"
  shows "\<exists>ext. new' = new @ ext \<and> extends sensor_key added added' ext"
proof (cases "py_get dev ''attributes'' JNull")
  case (Inl e)
  then have "added' = added" "new' = new"
    using p by (simp_all add: add_attribute_sensors_def)
  then show ?thesis by (simp add: extends_refl)
next
  case (Inr a)
  show ?thesis
  proof (cases "sorted_keys (if truthy a then a else JDict [])")
    case (Inl e)
    then have "added' = added" "new' = new"
      using p Inr by (simp_all add: add_attribute_sensors_def)
    then show ?thesis by (simp add: extends_refl)
  next
    case ks: (Inr attr_keys)
    obtain added2 new2 where l: "sensor_attr_loop n attr_keys added new = (added2, new2)"
      by (cases "sensor_attr_loop n attr_keys added new")
    have "added' = added2" "new' = new2"
      using p Inr ks l by (simp_all add: add_attribute_sensors_def)
    then show ?thesis using sensor_attr_loop_extends [OF l] by simp
  qed
qed

lemma sensor_device_loop_extends:
  "sensor_device_loop cfg ds added new = (added', new', err) \<Longrightarrow>
   \<exists>ext. new' = new @ ext \<and> extends sensor_key added added' ext"
proof (induction ds arbitrary: added new)
  case Nil
  then show ?case by (simp add: extends_refl)
next
  case (Cons d ds)
  obtain n dev where d: "d = (n, dev)" by (cases d)
  show ?case
  proof (cases "cfg \<noteq> [] \<and> \<not> key_in n cfg")
    case True
    then have "sensor_device_loop cfg ds added new = (added', new', err)"
      using Cons.prems by (simp add: d)
    then show ?thesis by (rule Cons.IH)
  next
    case run: False
    obtain added1 new1 where s1: "add_status_sensor n added new = (added1, new1)"
      by (cases "add_status_sensor n added new")
    obtain added2 new2 e2 where s2: "add_attribute_sensors n dev added1 new1 = (added2, new2, e2)"
      by (cases "add_attribute_sensors n dev added1 new1")
    obtain ext1 where x1: "new1 = new @ ext1" "extends sensor_key added added1 ext1"
      using add_status_sensor_extends [OF s1] by blast
    obtain ext2 where x2: "new2 = new1 @ ext2" "extends sensor_key added1 added2 ext2"
      using add_attribute_sensors_extends [OF s2] by blast
    have x12: "extends sensor_key added added2 (ext1 @ ext2)"
      using x1(2) x2(2) by (rule extends_trans)
    have eq: "sensor_device_loop cfg (d # ds) added new =
        (if e2 = None then sensor_device_loop cfg ds added2 new2 else (added2, new2, e2))"
      using run by (auto simp: d s1 s2)
    show ?thesis
    proof (cases "e2 = None")
      case True
      then have "sensor_device_loop cfg ds added2 new2 = (added', new', err)"
        using Cons.prems eq by simp
      then obtain ext3 where x3: "new' = new2 @ ext3" "extends sensor_key added2 added' ext3"
        using Cons.IH by blast
      have "extends sensor_key added added' ((ext1 @ ext2) @ ext3)"
        using x12 x3(2) by (rule extends_trans)
      then show ?thesis
        using x1(1) x2(1) x3(1) by (intro exI [of _ "(ext1 @ ext2) @ ext3"]) simp
    next
      case False
      then have "added' = added2" "new' = new2"
        using Cons.prems eq by auto
      then show ?thesis
        using x12 x1(1) x2(1) by (intro exI [of _ "ext1 @ ext2"]) simp
    qed
  qed
qed

lemma sensor_pass_extends:
  "sensor_maybe_add_entities cfg ds added = (added', new, err) \<Longrightarrow>
   extends sensor_key added added' new"
proof -
  assume a: "sensor_maybe_add_entities cfg ds added = (added', new, err)"
  obtain A N E where l: "sensor_device_loop cfg ds added [] = (A, N, E)"
    by (cases "sensor_device_loop cfg ds added []")
  then have x: "extends sensor_key added A N"
    using sensor_device_loop_extends [OF l] by simp
  from a l have "added' = A" "new = N \<or> new = []"
    by (auto simp: sensor_maybe_add_entities_def split: if_splits)
  with x show ?thesis by (auto intro: extends_drop)
qed

lemma button_desc_loop_extends:
  "button_desc_loop eid n ty descs added new = (added', new') \<Longrightarrow>
   \<exists>ext. new' = new @ ext \<and> extends (button_key eid) added added' ext"
proof (induction descs arbitrary: added new)
  case Nil
  then show ?case by (simp add: extends_refl)
next
  case (Cons desc descs)
  let ?key = "eid @ ''-'' @ py_format n @ ''-'' @ desc_key desc"
  have eq: "button_desc_loop eid n ty (desc # descs) added new =
      (if \<not> type_in ty (device_types desc) \<or> ?key \<in> added
       then button_desc_loop eid n ty descs added new
       else button_desc_loop eid n ty descs (insert ?key added) (new @ [UPSCommandButton n desc]))"
    by (simp add: Let_def)
  show ?case
  proof (cases "\<not> type_in ty (device_types desc) \<or> ?key \<in> added")
    case True
    then have "button_desc_loop eid n ty descs added new = (added', new')"
      using Cons.prems unfolding eq by (simp only: if_True)
    then show ?thesis by (rule Cons.IH)
  next
    case False
    then have "button_desc_loop eid n ty descs (insert ?key added) (new @ [UPSCommandButton n desc])
        = (added', new')"
      using Cons.prems unfolding eq by (simp only: if_False)
    then obtain ext where e: "new' = (new @ [UPSCommandButton n desc]) @ ext"
      "extends (button_key eid) (insert ?key added) added' ext"
      using Cons.IH by blast
    have k: "button_key eid (UPSCommandButton n desc) = ?key"
      by simp
    have "extends (button_key eid) added (insert (button_key eid (UPSCommandButton n desc)) added)
        [UPSCommandButton n desc]"
      using False by (intro extends_single) (simp only: k, simp)
    then have "extends (button_key eid) added (insert ?key added) [UPSCommandButton n desc]"
      by (simp only: k)
    then have "extends (button_key eid) added added' ([UPSCommandButton n desc] @ ext)"
      using e(2) by (rule extends_trans)
    with e(1) show ?thesis by (intro exI [of _ "[UPSCommandButton n desc] @ ext"]) simp
  qed
qed

lemma add_buttons_extends:
  assumes p: "add_buttons eid n dev added new = (added', new', err)"
  shows "\<exists>ext. new' = new @ ext \<and> extends (button_key eid) added added' ext"
proof (cases "py_get dev ''type'' (JStr ''nut'')")
  case (Inl e)
  then have "added' = added" "new' = new"
    using p by (simp_all add: add_buttons_def)
  then show ?thesis by (simp add: extends_refl)
next
  case (Inr ty)
  obtain added1 new1 where l:
    "button_desc_loop eid n ty BUTTON_DESCRIPTIONS added new = (added1, new1)"
    by (cases "button_desc_loop eid n ty BUTTON_DESCRIPTIONS added new")
  have "added' = added1" "new' = new1"
    using p Inr l by (simp_all add: add_buttons_def)
  then show ?thesis using button_desc_loop_extends [OF l] by simp
qed

lemma button_device_loop_extends:
  "button_device_loop eid cfg ds added new = (added', new', err) \<Longrightarrow>
   \<exists>ext. new' = new @ ext \<and> extends (button_key eid) added added' ext"
proof (induction ds arbitrary: added new)
  case Nil
  then show ?case by (simp add: extends_refl)
next
  case (Cons d ds)
  obtain n dev where d: "d = (n, dev)" by (cases d)
  show ?case
  proof (cases "cfg \<noteq> [] \<and> \<not> key_in n cfg")
    case True
    then have "button_device_loop eid cfg ds added new = (added', new', err)"
      using Cons.prems by (simp add: d)
    then show ?thesis by (rule Cons.IH)
  next
    case run: False
    obtain added1 new1 e1 where s1: "add_buttons eid n dev added new = (added1, new1, e1)"
      by (cases "add_buttons eid n dev added new")
    obtain ext1 where x1: "new1 = new @ ext1" "extends (button_key eid) added added1 ext1"
      using add_buttons_extends [OF s1] by blast
    have eq: "button_device_loop eid cfg (d # ds) added new =
        (if e1 = None then button_device_loop eid cfg ds added1 new1 else (added1, new1, e1))"
      using run by (auto simp: d s1)
    show ?thesis
    proof (cases "e1 = None")
      case True
      then have "button_device_loop eid cfg ds added1 new1 = (added', new', err)"
        using Cons.prems eq by simp
      then obtain ext2 where x2: "new' = new1 @ ext2" "extends (button_key eid) added1 added' ext2"
        using Cons.IH by blast
      have "extends (button_key eid) added added' (ext1 @ ext2)"
        using x1(2) x2(2) by (rule extends_trans)
      then show ?thesis
        using x1(1) x2(1) by (intro exI [of _ "ext1 @ ext2"]) simp
    next
      case False
      then have "added' = added1" "new' = new1"
        using Cons.prems eq by auto
      then show ?thesis
        using x1 by (intro exI [of _ ext1]) simp
    qed
  qed
qed

lemma button_pass_extends:
  "button_maybe_add_entities eid cfg ds added = (added', new, err) \<Longrightarrow>
   extends (button_key eid) added added' new"
proof -
  assume a: "button_maybe_add_entities eid cfg ds added = (added', new, err)"
  obtain A N E where l: "button_device_loop eid cfg ds added [] = (A, N, E)"
    by (cases "button_device_loop eid cfg ds added []")
  then have x: "extends (button_key eid) added A N"
    using button_device_loop_extends [OF l] by simp
  from a l have "added' = A" "new = N \<or> new = []"
    by (auto simp: button_maybe_add_entities_def split: if_splits)
  with x show ?thesis by (auto intro: extends_drop)
qed

text \<open>
  The invariant of a connection: the entities handed out so far have pairwise
  different keys, and each key is in the set \<^verbatim>\<open>added\<close> of its platform.
\<close>

lemma extends_log:
  assumes "distinct (map key log)" and "key ` set log \<subseteq> A" and "extends key A B ext"
  shows "distinct (map key (log @ ext)) \<and> key ` set (log @ ext) \<subseteq> B"
proof -
  have a: "A \<subseteq> B" "distinct (map key ext)" "key ` set ext \<subseteq> B" "key ` set ext \<inter> A = {}"
    using assms(3) by (simp_all add: extends_def)
  have "key ` set log \<inter> key ` set ext = {}" using assms(2) a(4) by blast
  then have 1: "distinct (map key (log @ ext))" using assms(1) a(2) by simp
  have 2: "key ` set (log @ ext) \<subseteq> B" using assms(2) a(1) a(3) by (auto simp: image_Un)
  show ?thesis using 1 2 by simp
qed

lemma do_step_invariant:
  assumes "distinct (map sensor_key (sensor_emitted c))"
    and "sensor_key ` set (sensor_emitted c) \<subseteq> sensor_added c"
    and "distinct (map (button_key (conn_entry_id c)) (button_emitted c))"
    and "button_key (conn_entry_id c) ` set (button_emitted c) \<subseteq> button_added c"
  shows "distinct (map sensor_key (sensor_emitted (do_step c s)))
    \<and> sensor_key ` set (sensor_emitted (do_step c s)) \<subseteq> sensor_added (do_step c s)
    \<and> distinct (map (button_key (conn_entry_id (do_step c s))) (button_emitted (do_step c s)))
    \<and> button_key (conn_entry_id (do_step c s)) ` set (button_emitted (do_step c s))
        \<subseteq> button_added (do_step c s)
    \<and> sensor_added c \<subseteq> sensor_added (do_step c s)
    \<and> button_added c \<subseteq> button_added (do_step c s)"
proof (cases s)
  case (Apply payload)
  then show ?thesis using assms by simp
next
  case SensorPass
  obtain A N E where p:
    "sensor_maybe_add_entities (conn_configured_names c) (conn_devices c) (sensor_added c) = (A, N, E)"
    by (cases "sensor_maybe_add_entities (conn_configured_names c) (conn_devices c) (sensor_added c)")
  then have x: "extends sensor_key (sensor_added c) A N"
    by (rule sensor_pass_extends)
  have "distinct (map sensor_key (sensor_emitted c @ N))
      \<and> sensor_key ` set (sensor_emitted c @ N) \<subseteq> A"
    using assms(1,2) x by (rule extends_log)
  moreover have "sensor_added c \<subseteq> A"
    using x by (simp add: extends_def)
  ultimately show ?thesis using assms(3,4) by (simp add: SensorPass p)
next
  case ButtonPass
  obtain A N E where p:
    "button_maybe_add_entities (conn_entry_id c) (conn_configured_names c) (conn_devices c)
       (button_added c) = (A, N, E)"
    by (cases "button_maybe_add_entities (conn_entry_id c) (conn_configured_names c)
       (conn_devices c) (button_added c)")
  then have x: "extends (button_key (conn_entry_id c)) (button_added c) A N"
    by (rule button_pass_extends)
  have "distinct (map (button_key (conn_entry_id c)) (button_emitted c @ N))
      \<and> button_key (conn_entry_id c) ` set (button_emitted c @ N) \<subseteq> A"
    using assms(3,4) x by (rule extends_log)
  moreover have "button_added c \<subseteq> A"
    using x by (simp add: extends_def)
  ultimately show ?thesis using assms(1,2) by (simp add: ButtonPass p)
qed

lemma run_steps_invariant:
  "distinct (map sensor_key (sensor_emitted c)) \<Longrightarrow>
   sensor_key ` set (sensor_emitted c) \<subseteq> sensor_added c \<Longrightarrow>
   distinct (map (button_key (conn_entry_id c)) (button_emitted c)) \<Longrightarrow>
   button_key (conn_entry_id c) ` set (button_emitted c) \<subseteq> button_added c \<Longrightarrow>
   distinct (map sensor_key (sensor_emitted (run_steps c steps)))
   \<and> distinct (map (button_key (conn_entry_id (run_steps c steps))) (button_emitted (run_steps c steps)))
   \<and> sensor_added c \<subseteq> sensor_added (run_steps c steps)
   \<and> button_added c \<subseteq> button_added (run_steps c steps)"
proof (induction steps arbitrary: c)
  case Nil
  then show ?case by simp
next
  case (Cons s steps)
  note st = do_step_invariant [OF Cons.prems, of s]
  have "distinct (map sensor_key (sensor_emitted (run_steps (do_step c s) steps)))
   \<and> distinct (map (button_key (conn_entry_id (run_steps (do_step c s) steps)))
        (button_emitted (run_steps (do_step c s) steps)))
   \<and> sensor_added (do_step c s) \<subseteq> sensor_added (run_steps (do_step c s) steps)
   \<and> button_added (do_step c s) \<subseteq> button_added (run_steps (do_step c s) steps)"
    using st by (intro Cons.IH) simp_all
  then show ?case using st by auto
qed

lemma run_steps_append: "run_steps c (xs @ ys) = run_steps (run_steps c xs) ys"
  by (induction xs arbitrary: c) simp_all

lemma run_steps_added_mono:
  "sensor_added c \<subseteq> sensor_added (run_steps c steps)
   \<and> button_added c \<subseteq> button_added (run_steps c steps)"
proof (induction steps arbitrary: c)
  case Nil
  show ?case by simp
next
  case (Cons s steps)
  have "sensor_added c \<subseteq> sensor_added (do_step c s) \<and> button_added c \<subseteq> button_added (do_step c s)"
  proof (cases s)
    case (Apply payload)
    then show ?thesis by simp
  next
    case SensorPass
    obtain A N E where p:
      "sensor_maybe_add_entities (conn_configured_names c) (conn_devices c) (sensor_added c) = (A, N, E)"
      by (cases "sensor_maybe_add_entities (conn_configured_names c) (conn_devices c) (sensor_added c)")
    then have "extends sensor_key (sensor_added c) A N"
      by (rule sensor_pass_extends)
    then show ?thesis by (simp add: SensorPass p extends_def)
  next
    case ButtonPass
    obtain A N E where p:
      "button_maybe_add_entities (conn_entry_id c) (conn_configured_names c) (conn_devices c)
         (button_added c) = (A, N, E)"
      by (cases "button_maybe_add_entities (conn_entry_id c) (conn_configured_names c)
         (conn_devices c) (button_added c)")
    then have "extends (button_key (conn_entry_id c)) (button_added c) A N"
      by (rule button_pass_extends)
    then show ?thesis by (simp add: ButtonPass p extends_def)
  qed
  then show ?case using Cons [of "do_step c s"] by auto
qed

text \<open>
  C1. Discovery is monotone and emits each facet at most once. For every connection
  state and every sequence of payload applications and platform passes: at every
  point of the sequence the two sets \<^verbatim>\<open>added\<close> contain what they contained at any
  earlier point; and, starting from a connection that has handed out no entity yet, no
  sensor entity and no button entity occurs twice in the log of the entities handed to
  the entity-add callbacks.
\<close>

theorem discovery_monotone:
  "sensor_added (run_steps c xs) \<subseteq> sensor_added (run_steps c (xs @ ys))
   \<and> button_added (run_steps c xs) \<subseteq> button_added (run_steps c (xs @ ys))
   \<and> (sensor_emitted c = [] \<and> button_emitted c = [] \<longrightarrow>
        distinct (sensor_emitted (run_steps c xs)) \<and> distinct (button_emitted (run_steps c xs)))"
proof (intro conjI impI)
  show "sensor_added (run_steps c xs) \<subseteq> sensor_added (run_steps c (xs @ ys))"
    using run_steps_added_mono [of "run_steps c xs" ys] by (simp add: run_steps_append)
  show "button_added (run_steps c xs) \<subseteq> button_added (run_steps c (xs @ ys))"
    using run_steps_added_mono [of "run_steps c xs" ys] by (simp add: run_steps_append)
next
  assume "sensor_emitted c = [] \<and> button_emitted c = []"
  then have "distinct (map sensor_key (sensor_emitted (run_steps c xs)))
   \<and> distinct (map (button_key (conn_entry_id (run_steps c xs))) (button_emitted (run_steps c xs)))
   \<and> sensor_added c \<subseteq> sensor_added (run_steps c xs)
   \<and> button_added c \<subseteq> button_added (run_steps c xs)"
    by (intro run_steps_invariant) simp_all
  then show "distinct (sensor_emitted (run_steps c xs))"
    and "distinct (button_emitted (run_steps c xs))"
    by (simp_all add: distinct_map)
qed

theorem discovery_monotone_witness:
  "sensor_emitted (run_steps (fresh_connection ''entry1'' [])
      [Apply (Some (JList [JDict [(''device_name'', JStr ''ups1''),
                                  (''attributes'', JDict [(''status'', JStr ''OL''),
                                                          (''battery_charge'', JInt 90)])]])),
       SensorPass,
       Apply (Some (JList [JDict [(''device_name'', JStr ''ups1''),
                                  (''attributes'', JDict [(''status'', JStr ''OL'')])]])),
       SensorPass,
       Apply (Some (JList [JDict [(''device_name'', JStr ''ups1''),
                                  (''attributes'', JDict [(''status'', JStr ''OL''),
                                                          (''battery_charge'', JInt 90)])]])),
       SensorPass])
   = [UPSStatusSensor (KStr ''ups1''), UPSAttributeSensor (KStr ''ups1'') ''battery_charge'']"
  using discovery_monotone
    [of "fresh_connection ''entry1'' []"
        "[Apply (Some (JList [JDict [(''device_name'', JStr ''ups1''),
                                  (''attributes'', JDict [(''status'', JStr ''OL''),
                                                          (''battery_charge'', JInt 90)])]])),
       SensorPass,
       Apply (Some (JList [JDict [(''device_name'', JStr ''ups1''),
                                  (''attributes'', JDict [(''status'', JStr ''OL'')])]])),
       SensorPass,
       Apply (Some (JList [JDict [(''device_name'', JStr ''ups1''),
                                  (''attributes'', JDict [(''status'', JStr ''OL''),
                                                          (''battery_charge'', JInt 90)])]])),
       SensorPass]" "[]"]
  by (simp add: fresh_connection_def update_state_def sensor_maybe_add_entities_def
      add_status_sensor_def add_attribute_sensors_def key_eq_def)

section \<open>Properties of the stream client\<close>













end
